theory Spec2Isabelle
  imports Main "HOL-Library.Sublist"
begin

section \<open>Values of the JavaScript runtime\<close>

text \<open>
  The conference portal is an Express server over a JSON file. Two route sets exist:
  the complete server (registration, proof-file payment confirmation, admin list, export
  and mark-paid) and an older server whose payment confirmation takes a JSON body and no
  file. Both are embedded here; a definition that follows the older server carries the
  suffix \<open>_json\<close>.

  A string is a list of code units below 256 (the characters of ISO 8859-1, which begin
  with ASCII); text with a code unit beyond that range has no term here. A property that
  is \<open>null\<close> or \<open>undefined\<close> in a stored record is \<open>None\<close>: the code only tests such
  fields for truthiness, prints them through \<open>??\<close>, or concatenates \<open>paper_id\<close>, which
  it always writes as \<open>null\<close> or a string. Time stamps are the clock reading in
  milliseconds; \<open>toISOString\<close> renders one as text.
\<close>

type_synonym fee = "string \<times> nat"
  \<comment> \<open>a leaf of the fee table: \<open>{ currency, amount }\<close>\<close>

datatype jsval =
    JUndefined
  | JNull
  | JBool bool
  | JNum nat
  | JStr string
  | JFee fee
  | JRegions "(string \<times> fee) list"
  | JNative string

text \<open>
  \<open>JRegions\<close> is the object literal a category holds in \<open>FEES\<close>; \<open>JNative k\<close> is the
  built-in value that \<open>Object.prototype\<close> holds under the key \<open>k\<close> (a function, or
  \<open>Object.prototype\<close> itself under \<open>__proto__\<close>). Every object and function is truthy.
\<close>

fun truthy :: "jsval \<Rightarrow> bool" where
  "truthy JUndefined = False"
| "truthy JNull = False"
| "truthy (JBool b) = b"
| "truthy (JNum n) = (n \<noteq> 0)"
| "truthy (JStr s) = (s \<noteq> [])"
| "truthy (JFee f) = True"
| "truthy (JRegions rs) = True"
| "truthy (JNative k) = True"

definition truthy_str :: "string option \<Rightarrow> bool" where
  \<comment> \<open>truthiness of a value that is a string or absent: \<open>!v\<close> holds for undefined, null and \<open>""\<close>\<close>
  "truthy_str v = (case v of None \<Rightarrow> False | Some s \<Rightarrow> s \<noteq> [])"

definition or_null :: "string option \<Rightarrow> string option" where
  \<comment> \<open>\<open>v || null\<close>\<close>
  "or_null v = (if truthy_str v then v else None)"

definition or_empty :: "string option \<Rightarrow> string" where
  \<comment> \<open>\<open>v || ""\<close>\<close>
  "or_empty v = (case v of None \<Rightarrow> [] | Some s \<Rightarrow> s)"

text \<open>
  \<open>String.prototype.toLowerCase\<close> is a function of the runtime. On code units below 256 it
  replaces each of the 56 upper-case letters by its lower-case letter, position by
  position, and leaves every other code unit as it is: the letters A to Z, and the letters
  at 0xC0 to 0xDE without the multiplication sign 0xD7, whose lower-case letters lie 0x20
  above them.
\<close>

definition upper_letters :: string where
  "upper_letters =
     ''ABCDEFGHIJKLMNOPQRSTUVWXYZ'' @
       [CHR 0xC0, CHR 0xC1, CHR 0xC2, CHR 0xC3, CHR 0xC4, CHR 0xC5, CHR 0xC6, CHR 0xC7,
        CHR 0xC8, CHR 0xC9, CHR 0xCA, CHR 0xCB, CHR 0xCC, CHR 0xCD, CHR 0xCE, CHR 0xCF,
        CHR 0xD0, CHR 0xD1, CHR 0xD2, CHR 0xD3, CHR 0xD4, CHR 0xD5, CHR 0xD6, CHR 0xD8,
        CHR 0xD9, CHR 0xDA, CHR 0xDB, CHR 0xDC, CHR 0xDD, CHR 0xDE]"

definition lower_letters :: string where
  "lower_letters =
     ''abcdefghijklmnopqrstuvwxyz'' @
       [CHR 0xE0, CHR 0xE1, CHR 0xE2, CHR 0xE3, CHR 0xE4, CHR 0xE5, CHR 0xE6, CHR 0xE7,
        CHR 0xE8, CHR 0xE9, CHR 0xEA, CHR 0xEB, CHR 0xEC, CHR 0xED, CHR 0xEE, CHR 0xEF,
        CHR 0xF0, CHR 0xF1, CHR 0xF2, CHR 0xF3, CHR 0xF4, CHR 0xF5, CHR 0xF6, CHR 0xF8,
        CHR 0xF9, CHR 0xFA, CHR 0xFB, CHR 0xFC, CHR 0xFD, CHR 0xFE]"

definition toLowerCase_char :: "char \<Rightarrow> char" where
  "toLowerCase_char c =
     (case map_of (zip upper_letters lower_letters) c of Some l \<Rightarrow> l | None \<Rightarrow> c)"

definition toLowerCase :: "string \<Rightarrow> string" where
  "toLowerCase s = map toLowerCase_char s"

fun includes_str :: "string \<Rightarrow> string \<Rightarrow> bool" where
  \<comment> \<open>\<open>s.includes(q)\<close>: \<open>q\<close> occurs in \<open>s\<close> at some position\<close>
  "includes_str [] q = (q = [])"
| "includes_str (c # cs) q = (prefix q (c # cs) \<or> includes_str cs q)"

section \<open>The environment of a request\<close>

record env =
  now :: nat
  draw :: "nat \<Rightarrow> nat"
  env_ADMIN_PASSWORD :: "string option"
  native_member :: "string \<Rightarrow> string \<Rightarrow> jsval option"
  toISOString :: "nat \<Rightarrow> string"

text \<open>
  What a handler takes from outside the source: \<open>now\<close> is the reading of \<open>new Date()\<close>,
  \<open>draw\<close> the random draws behind one call of \<open>nanoid()\<close>, \<open>env_ADMIN_PASSWORD\<close> the
  variable \<open>process.env.ADMIN_PASSWORD\<close>, and \<open>native_member b k\<close> the result of reading
  property \<open>k\<close> of the built-in value \<open>JNative b\<close> (\<open>None\<close> when the read throws); the
  members of built-in functions differ between engine versions, so they are not fixed here.
\<close>

type_synonym body = "string \<rightharpoonup> string"

record upload =
  filename :: string
  originalname :: string

record request =
  query :: "string \<rightharpoonup> string"
  headers :: "string \<rightharpoonup> string"

section \<open>Identifier generator\<close>

definition ALPHABET :: string where
  "ALPHABET = ''123456789ABCDEFGHJKLMNPQRSTUVWXYZ''"

text \<open>
  Modelled from the spec: \<open>customAlphabet\<close> comes from the package \<open>nanoid\<close>, which is
  not part of the repository's source. The spec describes its result as a code of fixed
  length whose characters are drawn from the given alphabet; the random draws are the
  argument \<open>d\<close>.
\<close>

definition customAlphabet :: "string \<Rightarrow> nat \<Rightarrow> (nat \<Rightarrow> nat) \<Rightarrow> string" where
  "customAlphabet alphabet n d = map (\<lambda>i. alphabet ! (d i mod length alphabet)) [0..<n]"

definition nanoid :: "env \<Rightarrow> string" where
  "nanoid e = customAlphabet ALPHABET 10 (draw e)"

section \<open>Fee table\<close>

definition FEES :: "(string \<times> (string \<times> fee) list) list" where
  "FEES =
    [(''Research Scholars'',
        [(''INDIA'', (''INR'', 1500)), (''ASIA'', (''USD'', 100)), (''OTHER'', (''USD'', 125))]),
     (''Academia'',
        [(''INDIA'', (''INR'', 2000)), (''ASIA'', (''USD'', 150)), (''OTHER'', (''USD'', 175))]),
     (''Industry Professionals'',
        [(''INDIA'', (''INR'', 2500)), (''ASIA'', (''USD'', 200)), (''OTHER'', (''USD'', 225))]),
     (''Listeners / Accompanying'',
        [(''INDIA'', (''INR'', 500)), (''ASIA'', (''USD'', 30)), (''OTHER'', (''USD'', 40))])]"

text \<open>
  \<open>FEES\<close> and the objects it holds are object literals, so they inherit from
  \<open>Object.prototype\<close>, and the bracket reads \<open>FEES[category]\<close> and \<open>[region]\<close> return
  an inherited member when the object has no own property of the name asked for. The
  string-keyed members of \<open>Object.prototype\<close> are the twelve listed here; all of them
  are functions, except \<open>__proto__\<close>, which reads as \<open>Object.prototype\<close> itself.
\<close>

definition Object_prototype_keys :: "string list" where
  "Object_prototype_keys =
    [''constructor'', ''__defineGetter__'', ''__defineSetter__'', ''hasOwnProperty'',
     ''__lookupGetter__'', ''__lookupSetter__'', ''isPrototypeOf'', ''propertyIsEnumerable'',
     ''toString'', ''valueOf'', ''__proto__'', ''toLocaleString'']"

definition inherited :: "string \<Rightarrow> jsval" where
  \<comment> \<open>a property read that reaches \<open>Object.prototype\<close>, as every read on an object literal
      does when the object has no own property of that name\<close>
  "inherited k = (if k \<in> set Object_prototype_keys then JNative k else JUndefined)"

definition FEES_category :: "string \<Rightarrow> jsval" where
  \<comment> \<open>\<open>FEES[category]\<close>\<close>
  "FEES_category category =
     (case map_of FEES category of Some rs \<Rightarrow> JRegions rs | None \<Rightarrow> inherited category)"

definition FEES_lookup :: "env \<Rightarrow> string \<Rightarrow> string \<Rightarrow> jsval option" where
  \<comment> \<open>\<open>FEES[category]?.[region]\<close>; \<open>None\<close> when the read throws\<close>
  "FEES_lookup e category region =
     (case FEES_category category of
        JRegions rs \<Rightarrow>
          Some (case map_of rs region of Some f \<Rightarrow> JFee f | None \<Rightarrow> inherited region)
      | JNative b \<Rightarrow> native_member e b region
      | _ \<Rightarrow> Some JUndefined)"

fun destructure :: "jsval \<Rightarrow> string option \<times> nat option" where
  \<comment> \<open>\<open>const { currency, amount } = v\<close>: only a leaf of the table has these properties\<close>
  "destructure (JFee (c, a)) = (Some c, Some a)"
| "destructure v = (None, None)"

section \<open>Registration records and the record store\<close>

record registration =
  id' :: string
  created_at :: nat
  category :: string
  region :: string
  currency :: "string option"
  amount :: "nat option"
  paper_id :: "string option"
  name :: string
  organization :: "string option"
  email :: "string option"
  mobile :: string
  paper_filename :: "string option"
  paper_original :: "string option"
  paid :: jsval
  paid_at :: "nat option"
  transaction_id :: "string option"
  payment_method :: "string option"
  payer_email :: "string option"
  payment_proof_filename :: "string option"
  payment_proof_original :: "string option"

record listed = registration +
  paper_url :: "string option"
  payment_proof_url :: "string option"

datatype error =
    MissingField
  | InvalidSelection
  | NotFound
  | EmailMismatch
  | Unauthorized
  | Internal

datatype response =
    Registered string "string option" "nat option" "string option"
  | Confirmed string
  | Confirmed_json nat string string string
  | Listing "listed list"
  | Csv "string list"
  | Marked registration

type_synonym 'a outcome = "(error + 'a) \<times> registration list"
  \<comment> \<open>the response, and the collection the store holds afterwards\<close>

fun update_first :: "('a \<Rightarrow> bool) \<Rightarrow> ('a \<Rightarrow> 'a) \<Rightarrow> 'a list \<Rightarrow> 'a list" where
  \<comment> \<open>\<open>rows.find(p)\<close> followed by assignments to the record found: the first match changes\<close>
  "update_first p f [] = []"
| "update_first p f (x # xs) = (if p x then f x # xs else x # update_first p f xs)"

section \<open>Registration service\<close>

definition register :: "env \<Rightarrow> body \<Rightarrow> upload option \<Rightarrow> registration list \<Rightarrow> response outcome" where
  "register e b file rows =
     (if \<not> truthy_str (b ''category'') \<or> \<not> truthy_str (b ''region'') \<or> \<not> truthy_str (b ''name'')
         \<or> \<not> truthy_str (b ''email'') \<or> \<not> truthy_str (b ''mobile'')
      then (Inl MissingField, rows)
      else
        (case FEES_lookup e (the (b ''category'')) (the (b ''region'')) of
           None \<Rightarrow> (Inl Internal, rows)
         | Some v \<Rightarrow>
             if \<not> truthy v then (Inl InvalidSelection, rows)
             else
               (let (cur, amt) = destructure v;
                    rec = \<lparr> id' = nanoid e,
                            created_at = now e,
                            category = the (b ''category''),
                            region = the (b ''region''),
                            currency = cur,
                            amount = amt,
                            paper_id = or_null (b ''paperId''),
                            name = the (b ''name''),
                            organization = or_null (b ''organization''),
                            email = b ''email'',
                            mobile = the (b ''mobile''),
                            paper_filename = (case file of None \<Rightarrow> None | Some f \<Rightarrow> or_null (Some (filename f))),
                            paper_original = (case file of None \<Rightarrow> None | Some f \<Rightarrow> or_null (Some (originalname f))),
                            paid = JNum 0,
                            paid_at = None,
                            transaction_id = None,
                            payment_method = None,
                            payer_email = None,
                            payment_proof_filename = None,
                            payment_proof_original = None \<rparr>
                in (Inr (Registered (nanoid e) cur amt
                          (case file of None \<Rightarrow> None | Some f \<Rightarrow> Some (''/uploads/'' @ filename f))),
                    rows @ [rec]))))"

section \<open>Payment service\<close>

definition by_id :: "string \<Rightarrow> registration \<Rightarrow> bool" where
  \<comment> \<open>the predicate \<open>(r) => r.id === id\<close>\<close>
  "by_id i r = (id' r = i)"

definition confirmPayment ::
  "env \<Rightarrow> string \<Rightarrow> body \<Rightarrow> upload option \<Rightarrow> registration list \<Rightarrow> response outcome" where
  \<comment> \<open>the proof-file variant; a throw inside \<open>try\<close> is answered with status 500\<close>
  "confirmPayment e i b file rows =
     (case file of
        None \<Rightarrow> (Inl MissingField, rows)
      | Some f \<Rightarrow>
          (case find (by_id i) rows of
             None \<Rightarrow> (Inl NotFound, rows)
           | Some rec \<Rightarrow>
               if truthy_str (email rec) \<and> b ''email'' = None then (Inl Internal, rows)
               else if truthy_str (email rec)
                       \<and> toLowerCase (the (email rec)) \<noteq> toLowerCase (the (b ''email''))
               then (Inl EmailMismatch, rows)
               else
                 (Inr (Confirmed i),
                  update_first (by_id i)
                    (\<lambda>r. r\<lparr> paid := JNum 1,
                             paid_at := Some (now e),
                             transaction_id := b ''transactionId'',
                             payment_method := b ''method'',
                             payer_email := b ''email'',
                             payment_proof_filename := Some (filename f),
                             payment_proof_original := Some (originalname f) \<rparr>)
                    rows)))"

definition confirmPayment_json ::
  "env \<Rightarrow> string \<Rightarrow> body \<Rightarrow> registration list \<Rightarrow> response outcome" where
  \<comment> \<open>the variant without a proof file; it has no \<open>try\<close>, a throw is answered with status 500
      by the framework\<close>
  "confirmPayment_json e i b rows =
     (if \<not> truthy_str (b ''transactionId'') \<or> \<not> truthy_str (b ''method'') \<or> \<not> truthy_str (b ''email'')
      then (Inl MissingField, rows)
      else
        (case find (by_id i) rows of
           None \<Rightarrow> (Inl NotFound, rows)
         | Some rec \<Rightarrow>
             (case email rec of
                None \<Rightarrow> (Inl Internal, rows)
              | Some stored \<Rightarrow>
                  if toLowerCase stored \<noteq> toLowerCase (the (b ''email''))
                  then (Inl EmailMismatch, rows)
                  else
                    (Inr (Confirmed_json (now e) (the (b ''transactionId'')) (the (b ''method''))
                            (the (b ''email''))),
                     update_first (by_id i)
                       (\<lambda>r. r\<lparr> paid := JNum 1,
                                paid_at := Some (now e),
                                transaction_id := b ''transactionId'',
                                payment_method := b ''method'',
                                payer_email := b ''email'' \<rparr>)
                       rows))))"

section \<open>Admin service\<close>

definition ADMIN_PASSWORD :: "env \<Rightarrow> string" where
  \<comment> \<open>\<open>process.env.ADMIN_PASSWORD || "VishalRajput2003"\<close>\<close>
  "ADMIN_PASSWORD e =
     (if truthy_str (env_ADMIN_PASSWORD e) then the (env_ADMIN_PASSWORD e)
      else ''VishalRajput2003'')"

definition supplied_password :: "request \<Rightarrow> string" where
  \<comment> \<open>the local \<open>pass\<close>: \<open>req.query.password || req.headers["x-admin-password"] || ""\<close>\<close>
  "supplied_password req =
     (if truthy_str (query req ''password'') then the (query req ''password'')
      else if truthy_str (headers req ''x-admin-password'') then the (headers req ''x-admin-password'')
      else [])"

definition checkAdminPassword :: "env \<Rightarrow> request \<Rightarrow> bool" where
  "checkAdminPassword e req = (supplied_password req = ADMIN_PASSWORD e)"

definition withUrls :: "registration \<Rightarrow> listed" where
  \<comment> \<open>\<open>{ ...r, paper_url, payment_proof_url }\<close>\<close>
  "withUrls r =
     registration.extend r
       (listed.fields
          (if truthy_str (paper_filename r) then Some (''/uploads/'' @ the (paper_filename r)) else None)
          (if truthy_str (payment_proof_filename r)
           then Some (''/uploads/'' @ the (payment_proof_filename r)) else None))"

definition search_text :: "registration \<Rightarrow> string" where
  \<comment> \<open>\<open>r.id + r.name + r.paper_id\<close>: string concatenation writes a null \<open>paper_id\<close> as \<open>null\<close>\<close>
  "search_text r =
     id' r @ name r @ (case paper_id r of None \<Rightarrow> ''null'' | Some p \<Rightarrow> p)"

definition admin_registrations :: "env \<Rightarrow> request \<Rightarrow> registration list \<Rightarrow> response outcome" where
  "admin_registrations e req rows =
     (if \<not> checkAdminPassword e req then (Inl Unauthorized, rows)
      else
        (let q = toLowerCase (or_empty (query req ''q''));
             rows1 = rev rows;
             rows2 = (if q \<noteq> [] then filter (\<lambda>r. includes_str (toLowerCase (search_text r)) q) rows1
                      else rows1)
         in (Inr (Listing (map withUrls rows2)), rows)))"

function decimal :: "nat \<Rightarrow> string" where
  \<comment> \<open>\<open>String(n)\<close> for a natural number\<close>
  "decimal n =
     (if n < 10 then [''0123456789'' ! n] else decimal (n div 10) @ [''0123456789'' ! (n mod 10)])"
  by pat_completeness auto
termination
  by (relation "measure (\<lambda>n. n)") auto

fun to_text :: "jsval \<Rightarrow> string" where
  \<comment> \<open>\<open>String(v ?? "")\<close>; the column \<open>paid\<close> holds the numbers 0 and 1, never an object\<close>
  "to_text JUndefined = []"
| "to_text JNull = []"
| "to_text (JBool b) = (if b then ''true'' else ''false'')"
| "to_text (JNum n) = decimal n"
| "to_text (JStr s) = s"
| "to_text v = ''[object Object]''"

definition export_headers :: "string list" where
  "export_headers =
    [''id'', ''created_at'', ''category'', ''region'', ''currency'', ''amount'', ''paper_id'',
     ''name'', ''organization'', ''email'', ''mobile'', ''paper_filename'', ''paper_original'',
     ''paid'', ''paid_at'', ''transaction_id'', ''payment_method'', ''payer_email'',
     ''payment_proof_filename'', ''payment_proof_original'']"

definition column :: "env \<Rightarrow> registration \<Rightarrow> string \<Rightarrow> string" where
  \<comment> \<open>\<open>String(r[h] ?? "")\<close>\<close>
  "column e r h =
     (if h = ''id'' then id' r
      else if h = ''created_at'' then toISOString e (created_at r)
      else if h = ''category'' then category r
      else if h = ''region'' then region r
      else if h = ''currency'' then or_empty (currency r)
      else if h = ''amount'' then (case amount r of None \<Rightarrow> [] | Some a \<Rightarrow> decimal a)
      else if h = ''paper_id'' then or_empty (paper_id r)
      else if h = ''name'' then name r
      else if h = ''organization'' then or_empty (organization r)
      else if h = ''email'' then or_empty (email r)
      else if h = ''mobile'' then mobile r
      else if h = ''paper_filename'' then or_empty (paper_filename r)
      else if h = ''paper_original'' then or_empty (paper_original r)
      else if h = ''paid'' then to_text (paid r)
      else if h = ''paid_at'' then (case paid_at r of None \<Rightarrow> [] | Some t \<Rightarrow> toISOString e t)
      else if h = ''transaction_id'' then or_empty (transaction_id r)
      else if h = ''payment_method'' then or_empty (payment_method r)
      else if h = ''payer_email'' then or_empty (payer_email r)
      else if h = ''payment_proof_filename'' then or_empty (payment_proof_filename r)
      else if h = ''payment_proof_original'' then or_empty (payment_proof_original r)
      else [])"

fun join :: "string \<Rightarrow> string list \<Rightarrow> string" where
  "join sep [] = []"
| "join sep [x] = x"
| "join sep (x # y # ys) = x @ sep @ join sep (y # ys)"

definition quoted :: "string \<Rightarrow> string" where
  \<comment> \<open>the template \<open>"..."\<close> around \<open>replace(/"/g, '""')\<close>\<close>
  "quoted s = CHR 0x22 # concat (map (\<lambda>c. if c = CHR 0x22 then [c, c] else [c]) s) @ [CHR 0x22]"

definition admin_export :: "env \<Rightarrow> request \<Rightarrow> registration list \<Rightarrow> response outcome" where
  \<comment> \<open>the response is the sequence of chunks written\<close>
  "admin_export e req rows =
     (if \<not> checkAdminPassword e req then (Inl Unauthorized, rows)
      else
        (Inr (Csv ((join '','' export_headers @ [CHR 0x0A])
                   # map (\<lambda>r. join '','' (map (\<lambda>h. quoted (column e r h)) export_headers) @ [CHR 0x0A])
                       (rev rows))),
         rows))"

definition markPaid ::
  "env \<Rightarrow> request \<Rightarrow> string \<Rightarrow> jsval \<Rightarrow> registration list \<Rightarrow> response outcome" where
  \<comment> \<open>\<open>p\<close> is the property \<open>paid\<close> of the JSON body\<close>
  "markPaid e req i p rows =
     (if \<not> checkAdminPassword e req then (Inl Unauthorized, rows)
      else
        (case find (by_id i) rows of
           None \<Rightarrow> (Inl NotFound, rows)
         | Some rec \<Rightarrow>
             (let mark = (\<lambda>r. r\<lparr> paid := (if truthy p then JNum 1 else JNum 0),
                                  paid_at := (if truthy p then Some (now e) else None) \<rparr>)
              in (Inr (Marked (mark rec)), update_first (by_id i) mark rows))))"

section \<open>Notions of the specification\<close>

definition cased_letters :: "(char \<times> char) list" where
  \<comment> \<open>the letters that have two cases, each upper-case letter with its lower-case letter\<close>
  "cased_letters =
     [(CHR ''A'', CHR ''a''), (CHR ''B'', CHR ''b''), (CHR ''C'', CHR ''c''), (CHR ''D'', CHR ''d''),
      (CHR ''E'', CHR ''e''), (CHR ''F'', CHR ''f''), (CHR ''G'', CHR ''g''), (CHR ''H'', CHR ''h''),
      (CHR ''I'', CHR ''i''), (CHR ''J'', CHR ''j''), (CHR ''K'', CHR ''k''), (CHR ''L'', CHR ''l''),
      (CHR ''M'', CHR ''m''), (CHR ''N'', CHR ''n''), (CHR ''O'', CHR ''o''), (CHR ''P'', CHR ''p''),
      (CHR ''Q'', CHR ''q''), (CHR ''R'', CHR ''r''), (CHR ''S'', CHR ''s''), (CHR ''T'', CHR ''t''),
      (CHR ''U'', CHR ''u''), (CHR ''V'', CHR ''v''), (CHR ''W'', CHR ''w''), (CHR ''X'', CHR ''x''),
      (CHR ''Y'', CHR ''y''), (CHR ''Z'', CHR ''z''), (CHR 0xC0, CHR 0xE0), (CHR 0xC1, CHR 0xE1),
      (CHR 0xC2, CHR 0xE2), (CHR 0xC3, CHR 0xE3), (CHR 0xC4, CHR 0xE4), (CHR 0xC5, CHR 0xE5),
      (CHR 0xC6, CHR 0xE6), (CHR 0xC7, CHR 0xE7), (CHR 0xC8, CHR 0xE8), (CHR 0xC9, CHR 0xE9),
      (CHR 0xCA, CHR 0xEA), (CHR 0xCB, CHR 0xEB), (CHR 0xCC, CHR 0xEC), (CHR 0xCD, CHR 0xED),
      (CHR 0xCE, CHR 0xEE), (CHR 0xCF, CHR 0xEF), (CHR 0xD0, CHR 0xF0), (CHR 0xD1, CHR 0xF1),
      (CHR 0xD2, CHR 0xF2), (CHR 0xD3, CHR 0xF3), (CHR 0xD4, CHR 0xF4), (CHR 0xD5, CHR 0xF5),
      (CHR 0xD6, CHR 0xF6), (CHR 0xD8, CHR 0xF8), (CHR 0xD9, CHR 0xF9), (CHR 0xDA, CHR 0xFA),
      (CHR 0xDB, CHR 0xFB), (CHR 0xDC, CHR 0xFC), (CHR 0xDD, CHR 0xFD), (CHR 0xDE, CHR 0xFE)]"

definition same_letter :: "char \<Rightarrow> char \<Rightarrow> bool" where
  \<comment> \<open>the same character, or one letter in its two cases\<close>
  "same_letter x y = (x = y \<or> (x, y) \<in> set cased_letters \<or> (y, x) \<in> set cased_letters)"

definition equal_up_to_case :: "string \<Rightarrow> string \<Rightarrow> bool" where
  \<comment> \<open>the specification's "equals up to letter case": position by position\<close>
  "equal_up_to_case s t = list_all2 same_letter s t"

definition contains_ci :: "string \<Rightarrow> string \<Rightarrow> bool" where
  \<comment> \<open>the specification's "contains the query case-insensitively": some stretch of \<open>s\<close>
      equals \<open>q\<close> up to letter case\<close>
  "contains_ci s q = (\<exists>ps m ss. s = ps @ m @ ss \<and> equal_up_to_case m q)"

definition id_name_paper_id :: "registration \<Rightarrow> string" where
  \<comment> \<open>the specification's "concatenation of id, name and paper_id": an absent paper id
      contributes no character\<close>
  "id_name_paper_id r = id' r @ name r @ (case paper_id r of None \<Rightarrow> [] | Some p \<Rightarrow> p)"

definition payment_fields_null :: "registration \<Rightarrow> bool" where
  \<comment> \<open>the invariant of the data model: an unpaid record carries no payment field\<close>
  "payment_fields_null r =
     (\<not> truthy (paid r) \<longrightarrow>
        paid_at r = None \<and> transaction_id r = None \<and> payment_method r = None \<and> payer_email r = None)"

definition paid_at_null :: "registration \<Rightarrow> bool" where
  \<comment> \<open>its part that concerns \<open>paid_at\<close> alone\<close>
  "paid_at_null r = (\<not> truthy (paid r) \<longrightarrow> paid_at r = None)"

inductive reachable :: "registration list \<Rightarrow> bool" where
  \<comment> \<open>the collections the operations produce, starting from the empty store\<close>
  initial: "reachable []"
| registered: "reachable rows \<Longrightarrow> reachable (snd (register e b file rows))"
| confirmed: "reachable rows \<Longrightarrow> reachable (snd (confirmPayment e i b file rows))"
| confirmed_json: "reachable rows \<Longrightarrow> reachable (snd (confirmPayment_json e i b rows))"
| marked: "reachable rows \<Longrightarrow> reachable (snd (markPaid e req i p rows))"

section \<open>Example inputs\<close>

definition ex_env :: env where
  "ex_env = \<lparr> now = 1000, draw = (\<lambda>i. i), env_ADMIN_PASSWORD = None,
              native_member = (\<lambda>b k. Some JUndefined), toISOString = decimal \<rparr>"

definition ex_body :: body where
  "ex_body = [''category'' \<mapsto> ''Academia'', ''region'' \<mapsto> ''ASIA'', ''name'' \<mapsto> ''Ada'',
              ''email'' \<mapsto> ''Ada@Example.org'', ''mobile'' \<mapsto> ''5550100'']"

definition ex_record :: registration where
  "ex_record =
     \<lparr> id' = ''R1'', created_at = 1000, category = ''Academia'', region = ''ASIA'',
       currency = Some ''USD'', amount = Some 150, paper_id = None, name = ''Ada'',
       organization = None, email = Some ''Ada@Example.org'', mobile = ''5550100'',
       paper_filename = None, paper_original = None, paid = JNum 0, paid_at = None,
       transaction_id = None, payment_method = None, payer_email = None,
       payment_proof_filename = None, payment_proof_original = None \<rparr>"

definition ex_proof :: upload where
  "ex_proof = \<lparr> filename = ''P1.png'', originalname = ''receipt.png'' \<rparr>"

definition ex_payment :: body where
  "ex_payment = [''transactionId'' \<mapsto> ''TX1'', ''method'' \<mapsto> ''UPI'', ''email'' \<mapsto> ''ada@example.org'']"

definition ex_admin :: request where
  "ex_admin = \<lparr> query = [''password'' \<mapsto> ''VishalRajput2003''], headers = Map.empty \<rparr>"

definition ex_registered :: "registration list" where
  \<comment> \<open>the store after one registration\<close>
  "ex_registered = snd (register ex_env ex_body None [])"

definition ex_history :: "registration list" where
  \<comment> \<open>a registration, its payment confirmation, and the admin marking it unpaid\<close>
  "ex_history =
     snd (markPaid ex_env ex_admin (nanoid ex_env) (JBool False)
       (snd (confirmPayment ex_env (nanoid ex_env) ex_payment (Some ex_proof)
         (snd (register ex_env ex_body None [])))))"

section \<open>Lemmas on strings and on the record store\<close>

lemma zip_swap: "(x, y) \<in> set (zip xs ys) \<longleftrightarrow> (y, x) \<in> set (zip ys xs)"
  by (auto simp: in_set_zip)

lemma map_of_zip_iff:
  assumes "length U = length L" and "distinct U"
  shows "map_of (zip U L) x = Some y \<longleftrightarrow> (x, y) \<in> set (zip U L)"
  using assms by (simp add: map_of_eq_Some_iff)

lemma zip_left_unique:
  assumes "length U = length L" and "distinct L"
    and "(x, z) \<in> set (zip U L)" and "(y, z) \<in> set (zip U L)"
  shows "x = y"
proof -
  have len': "length L = length U"
    using assms(1) by simp
  have "(z, x) \<in> set (zip L U)" "(z, y) \<in> set (zip L U)"
    using assms(3,4) zip_swap [of _ _ U L] by auto
  then have "map_of (zip L U) z = Some x" "map_of (zip L U) z = Some y"
    using map_of_zip_iff [OF len' assms(2)] by auto
  then show ?thesis by simp
qed

lemma fold_pairs:
  assumes len: "length U = length L" and dU: "distinct U" and dL: "distinct L"
    and disj: "set U \<inter> set L = {}"
  shows "(case map_of (zip U L) x of Some l \<Rightarrow> l | None \<Rightarrow> x)
           = (case map_of (zip U L) y of Some l \<Rightarrow> l | None \<Rightarrow> y)
         \<longleftrightarrow> x = y \<or> (x, y) \<in> set (zip U L) \<or> (y, x) \<in> set (zip U L)"
proof -
  note iff = map_of_zip_iff [OF len dU]
  have left: "\<And>a b. (a, b) \<in> set (zip U L) \<Longrightarrow> a \<in> set U \<and> b \<in> set L"
    by (auto dest: set_zip_leftD set_zip_rightD)
  have none: "\<And>a. map_of (zip U L) a = None \<longleftrightarrow> a \<notin> set U"
    using len by (rule map_of_zip_is_None)
  show ?thesis
  proof (cases "map_of (zip U L) x")
    case None
    note nx = this
    show ?thesis
    proof (cases "map_of (zip U L) y")
      case None
      with nx show ?thesis
        by (auto simp: iff [symmetric])
    next
      case (Some l)
      with nx show ?thesis
        by (auto simp: iff [symmetric])
    qed
  next
    case (Some k)
    note sx = this
    show ?thesis
    proof (cases "map_of (zip U L) y")
      case None
      with sx show ?thesis
        by (auto simp: iff [symmetric])
    next
      case (Some l)
      have "x \<in> set U" "k \<in> set L" "y \<in> set U" "l \<in> set L"
        using sx Some left by (auto simp: iff)
      then have "k \<noteq> y" "l \<noteq> x"
        using disj by auto
      moreover have "k = l \<Longrightarrow> x = y"
        using sx Some zip_left_unique [OF len dL, of x k y] by (simp add: iff)
      moreover have "x = y \<Longrightarrow> k = l"
        using sx Some by simp
      ultimately show ?thesis
        using sx Some by (auto simp: iff [symmetric])
    qed
  qed
qed

lemma letters_facts:
  "length upper_letters = length lower_letters" "distinct upper_letters" "distinct lower_letters"
  "set upper_letters \<inter> set lower_letters = {}"
  by (simp_all add: upper_letters_def lower_letters_def)

lemma cased_letters_zip: "zip upper_letters lower_letters = cased_letters"
  by (simp add: upper_letters_def lower_letters_def cased_letters_def)

lemma same_letter_lower: "same_letter x y \<longleftrightarrow> toLowerCase_char x = toLowerCase_char y"
  unfolding same_letter_def toLowerCase_char_def cased_letters_zip [symmetric]
  using fold_pairs [OF letters_facts, of x y] by simp

lemma equal_up_to_case_lower: "equal_up_to_case s t \<longleftrightarrow> toLowerCase s = toLowerCase t"
  unfolding equal_up_to_case_def toLowerCase_def
  by (induction s arbitrary: t) (auto simp: same_letter_lower list_all2_Cons1)

lemma includes_sublist: "includes_str s q \<longleftrightarrow> sublist q s"
  by (induction s) (auto simp: sublist_Cons_right)

lemma split_map:
  assumes "map f s = a @ map f q @ c"
  shows "\<exists>ps m ss. s = ps @ m @ ss \<and> map f m = map f q"
proof -
  from assms obtain us vs where s: "s = us @ vs" and vs: "map f vs = map f q @ c"
    using map_eq_append_conv [of f s a "map f q @ c"] by auto
  from vs obtain m ss where "vs = m @ ss" and "map f m = map f q"
    using map_eq_append_conv [of f vs "map f q" c] by auto
  with s show ?thesis by blast
qed

lemma contains_ci_includes:
  "contains_ci s q \<longleftrightarrow> includes_str (toLowerCase s) (toLowerCase q)"
proof
  assume "contains_ci s q"
  then obtain ps m ss where s: "s = ps @ m @ ss" and m: "toLowerCase m = toLowerCase q"
    by (auto simp: contains_ci_def equal_up_to_case_lower)
  have "toLowerCase s = toLowerCase ps @ toLowerCase q @ toLowerCase ss"
    using s m by (simp add: toLowerCase_def)
  then show "includes_str (toLowerCase s) (toLowerCase q)"
    by (auto simp: includes_sublist sublist_def)
next
  assume "includes_str (toLowerCase s) (toLowerCase q)"
  then obtain a c where "map toLowerCase_char s = a @ map toLowerCase_char q @ c"
    by (auto simp: includes_sublist sublist_def toLowerCase_def)
  then show "contains_ci s q"
    using split_map [of toLowerCase_char s a q c]
    by (auto simp: contains_ci_def equal_up_to_case_lower toLowerCase_def)
qed

lemma find_update_first:
  "find p xs = Some x \<Longrightarrow> p (f x) \<Longrightarrow> find p (update_first p f xs) = Some (f x)"
  by (induction xs) (auto split: if_splits)

lemma find_None_update_first: "find p xs = None \<Longrightarrow> update_first p f xs = xs"
  by (induction xs) (auto split: if_splits)

lemma length_update_first: "length (update_first p f xs) = length xs"
  by (induction xs) auto

lemma find_by_id: "find (by_id i) rows = Some r \<Longrightarrow> id' r = i \<and> r \<in> set rows"
  by (auto simp: find_Some_iff by_id_def)

lemma register_appends:
  "fst (register e b up rows) = Inr resp \<Longrightarrow>
     \<exists>rec. snd (register e b up rows) = rows @ [rec] \<and> paid rec = JNum 0 \<and> paid_at rec = None
        \<and> transaction_id rec = None \<and> payment_method rec = None \<and> payer_email rec = None
        \<and> created_at rec = now e \<and> id' rec = nanoid e"
  by (auto simp: register_def Let_def split: if_splits option.splits prod.splits)

lemma register_rejects: "fst (register e b up rows) = Inl err \<Longrightarrow> snd (register e b up rows) = rows"
  by (auto simp: register_def Let_def split: if_splits option.splits prod.splits)

lemma confirmPayment_result:
  "confirmPayment e i b up rows = (res, rows') \<Longrightarrow>
     (\<exists>err. res = Inl err \<and> rows' = rows)
   \<or> (\<exists>f. up = Some f \<and> res = Inr (Confirmed i)
          \<and> rows' = update_first (by_id i)
              (\<lambda>r. r\<lparr> paid := JNum 1, paid_at := Some (now e),
                       transaction_id := b ''transactionId'', payment_method := b ''method'',
                       payer_email := b ''email'',
                       payment_proof_filename := Some (filename f),
                       payment_proof_original := Some (originalname f) \<rparr>) rows)"
  by (auto simp: confirmPayment_def split: option.splits if_splits)

lemma confirmPayment_json_result:
  "confirmPayment_json e i b rows = (res, rows') \<Longrightarrow>
     (\<exists>err. res = Inl err \<and> rows' = rows)
   \<or> ((\<exists>resp. res = Inr resp)
          \<and> rows' = update_first (by_id i)
              (\<lambda>r. r\<lparr> paid := JNum 1, paid_at := Some (now e),
                       transaction_id := b ''transactionId'', payment_method := b ''method'',
                       payer_email := b ''email'' \<rparr>) rows)"
  by (auto simp: confirmPayment_json_def split: option.splits if_splits)

lemma markPaid_result:
  "markPaid e req i p rows = (res, rows') \<Longrightarrow>
     (\<exists>err. res = Inl err \<and> rows' = rows)
   \<or> ((\<exists>resp. res = Inr resp)
          \<and> rows' = update_first (by_id i)
              (\<lambda>r. r\<lparr> paid := (if truthy p then JNum 1 else JNum 0),
                       paid_at := (if truthy p then Some (now e) else None) \<rparr>) rows)"
  by (auto simp: markPaid_def Let_def split: option.splits if_splits)

lemma find_update_by_id:
  assumes "find (by_id i) rows = Some r" and "id' (g r) = id' r"
  shows "find (by_id i) (update_first (by_id i) g rows) = Some (g r)"
proof -
  have "by_id i r"
    using assms(1) by (auto simp: find_Some_iff)
  then have "by_id i (g r)"
    using assms(2) by (simp add: by_id_def)
  with assms(1) show ?thesis
    by (rule find_update_first)
qed

lemma confirmPayment_reread:
  assumes "find (by_id i) rows = Some r" and "fst (confirmPayment e i b up rows) = Inr resp"
  shows "\<exists>f. up = Some f
           \<and> find (by_id i) (snd (confirmPayment e i b up rows)) =
               Some (r\<lparr> paid := JNum 1, paid_at := Some (now e),
                        transaction_id := b ''transactionId'', payment_method := b ''method'',
                        payer_email := b ''email'',
                        payment_proof_filename := Some (filename f),
                        payment_proof_original := Some (originalname f) \<rparr>)"
proof -
  obtain res rows' where c: "confirmPayment e i b up rows = (res, rows')"
    by (cases "confirmPayment e i b up rows")
  from confirmPayment_result [OF c] assms(2) c obtain f :: upload where
    "up = Some f" and
    "rows' = update_first (by_id i)
              (\<lambda>r. r\<lparr> paid := JNum 1, paid_at := Some (now e),
                       transaction_id := b ''transactionId'', payment_method := b ''method'',
                       payer_email := b ''email'',
                       payment_proof_filename := Some (filename f),
                       payment_proof_original := Some (originalname f) \<rparr>) rows"
    by auto
  then show ?thesis
    using c find_update_by_id [OF assms(1)] by simp
qed

lemma confirmPayment_json_reread:
  assumes "find (by_id i) rows = Some r" and "fst (confirmPayment_json e i b rows) = Inr resp"
  shows "find (by_id i) (snd (confirmPayment_json e i b rows)) =
           Some (r\<lparr> paid := JNum 1, paid_at := Some (now e),
                    transaction_id := b ''transactionId'', payment_method := b ''method'',
                    payer_email := b ''email'' \<rparr>)"
proof -
  obtain res rows' where c: "confirmPayment_json e i b rows = (res, rows')"
    by (cases "confirmPayment_json e i b rows")
  from confirmPayment_json_result [OF c] assms(2) c have
    "rows' = update_first (by_id i)
              (\<lambda>r. r\<lparr> paid := JNum 1, paid_at := Some (now e),
                       transaction_id := b ''transactionId'', payment_method := b ''method'',
                       payer_email := b ''email'' \<rparr>) rows"
    by auto
  then show ?thesis
    using c find_update_by_id [OF assms(1)] by simp
qed

lemma confirmPayment_finds:
  "fst (confirmPayment e i b up rows) = Inr resp \<Longrightarrow> \<exists>r. find (by_id i) rows = Some r"
  by (auto simp: confirmPayment_def split: option.splits)

lemma markPaid_present:
  assumes "checkAdminPassword e req" and "find (by_id i) rows = Some r"
  shows "markPaid e req i p rows =
           (Inr (Marked (r\<lparr> paid := (if truthy p then JNum 1 else JNum 0),
                            paid_at := (if truthy p then Some (now e) else None) \<rparr>)),
            update_first (by_id i)
              (\<lambda>r. r\<lparr> paid := (if truthy p then JNum 1 else JNum 0),
                       paid_at := (if truthy p then Some (now e) else None) \<rparr>) rows)
         \<and> find (by_id i) (snd (markPaid e req i p rows)) =
             Some (r\<lparr> paid := (if truthy p then JNum 1 else JNum 0),
                      paid_at := (if truthy p then Some (now e) else None) \<rparr>)"
  using assms find_update_by_id [OF assms(2)] by (simp add: markPaid_def)

lemma list_all_update_first:
  "list_all P xs \<Longrightarrow> (\<And>x. P x \<Longrightarrow> P (f x)) \<Longrightarrow> list_all P (update_first p f xs)"
  by (induction xs) auto

lemma register_keeps:
  assumes "list_all P rows"
    and "\<And>rec. paid rec = JNum 0 \<Longrightarrow> paid_at rec = None \<Longrightarrow> transaction_id rec = None \<Longrightarrow>
           payment_method rec = None \<Longrightarrow> payer_email rec = None \<Longrightarrow> P rec"
  shows "list_all P (snd (register e b up rows))"
proof (cases "fst (register e b up rows)")
  case (Inl err)
  then show ?thesis
    using assms(1) register_rejects by simp
next
  case (Inr resp)
  from register_appends [OF this] assms show ?thesis
    by auto
qed

lemma confirmPayment_keeps:
  assumes "list_all P rows" and "\<And>r. truthy (paid r) \<Longrightarrow> P r"
  shows "list_all P (snd (confirmPayment e i b up rows))"
proof -
  obtain res rows' where c: "confirmPayment e i b up rows = (res, rows')"
    by (cases "confirmPayment e i b up rows")
  from confirmPayment_result [OF c] show ?thesis
    using assms c by (auto intro!: list_all_update_first)
qed

lemma confirmPayment_json_keeps:
  assumes "list_all P rows" and "\<And>r. truthy (paid r) \<Longrightarrow> P r"
  shows "list_all P (snd (confirmPayment_json e i b rows))"
proof -
  obtain res rows' where c: "confirmPayment_json e i b rows = (res, rows')"
    by (cases "confirmPayment_json e i b rows")
  from confirmPayment_json_result [OF c] show ?thesis
    using assms c by (auto intro!: list_all_update_first)
qed

lemma markPaid_keeps_paid_at:
  assumes "list_all paid_at_null rows"
  shows "list_all paid_at_null (snd (markPaid e req i p rows))"
proof -
  obtain res rows' where c: "markPaid e req i p rows = (res, rows')"
    by (cases "markPaid e req i p rows")
  from markPaid_result [OF c] show ?thesis
    using assms c by (auto intro!: list_all_update_first simp: paid_at_null_def)
qed

lemma markPaid_true_keeps:
  assumes "list_all payment_fields_null rows" and "truthy p"
  shows "list_all payment_fields_null (snd (markPaid e req i p rows))"
proof -
  obtain res rows' where c: "markPaid e req i p rows = (res, rows')"
    by (cases "markPaid e req i p rows")
  from markPaid_result [OF c] show ?thesis
    using assms c by (auto intro!: list_all_update_first simp: payment_fields_null_def)
qed

lemma reachable_paid_at: "reachable rows \<Longrightarrow> list_all paid_at_null rows"
proof (induction rule: reachable.induct)
  case initial
  show ?case by simp
next
  case (registered rows e b up)
  then show ?case
    by (intro register_keeps) (simp_all add: paid_at_null_def)
next
  case (confirmed rows e i b up)
  then show ?case
    by (intro confirmPayment_keeps) (simp_all add: paid_at_null_def)
next
  case (confirmed_json rows e i b)
  then show ?case
    by (intro confirmPayment_json_keeps) (simp_all add: paid_at_null_def)
next
  case (marked rows e req i p)
  then show ?case
    by (intro markPaid_keeps_paid_at)
qed

lemma truncate_withUrls: "registration.truncate (withUrls r) = r"
  by (simp add: withUrls_def registration.truncate_def registration.extend_def)

lemma urls_withUrls:
  "paper_url (withUrls r) =
     (if truthy_str (paper_filename r) then Some (''/uploads/'' @ the (paper_filename r)) else None)
   \<and> payment_proof_url (withUrls r) =
     (if truthy_str (payment_proof_filename r)
      then Some (''/uploads/'' @ the (payment_proof_filename r)) else None)
   \<and> paper_filename (withUrls r) = paper_filename r
   \<and> payment_proof_filename (withUrls r) = payment_proof_filename r"
  by (simp add: withUrls_def registration.extend_def listed.fields_def)

lemma query_truthy: "toLowerCase (or_empty q) \<noteq> [] \<longleftrightarrow> truthy_str q"
  by (simp add: toLowerCase_def or_empty_def truthy_str_def split: option.splits)

lemma ex_history_value:
  "ex_history =
     [ex_record\<lparr> id' := nanoid ex_env, paid_at := None, transaction_id := Some ''TX1'',
         payment_method := Some ''UPI'', payer_email := Some ''ada@example.org'',
         payment_proof_filename := Some ''P1.png'', payment_proof_original := Some ''receipt.png'' \<rparr>]"
  by (simp add: ex_history_def register_def FEES_lookup_def FEES_category_def FEES_def ex_body_def
      ex_env_def ex_record_def truthy_str_def or_null_def confirmPayment_def by_id_def
      ex_payment_def ex_proof_def toLowerCase_def toLowerCase_char_def upper_letters_def lower_letters_def markPaid_def
      checkAdminPassword_def supplied_password_def ADMIN_PASSWORD_def ex_admin_def)

lemma reachable_ex_history: "reachable ex_history"
  unfolding ex_history_def
  by (intro reachable.marked reachable.confirmed reachable.registered reachable.initial)

lemma nanoid_ex_env: "nanoid ex_env = ''123456789A''"
  by (simp add: nanoid_def customAlphabet_def ALPHABET_def ex_env_def upt_rec)

lemma ex_registered_value: "ex_registered = [ex_record\<lparr> id' := ''123456789A'' \<rparr>]"
  by (simp add: ex_registered_def register_def FEES_lookup_def FEES_category_def FEES_def
      ex_body_def ex_record_def truthy_str_def or_null_def nanoid_ex_env)
     (simp add: ex_env_def)

lemma reachable_ex_registered: "reachable ex_registered"
  unfolding ex_registered_def by (intro reachable.registered reachable.initial)



lemma lower_ada: "toLowerCase ''Ada@Example.org'' = ''ada@example.org''"
  by (simp add: toLowerCase_def toLowerCase_char_def upper_letters_def lower_letters_def)

lemma lower_null: "toLowerCase ''null'' = ''null''"
  by (simp add: toLowerCase_def toLowerCase_char_def upper_letters_def lower_letters_def)

section \<open>Identifiers\<close>

text \<open>
  C9. Every generated identifier has exactly 10 characters, each of them a character of
  the alphabet; the alphabet has 33 distinct characters, namely the digits 1 to 9 and the
  upper-case letters without I and O.
\<close>

theorem nanoid_ten_of_alphabet:
  "length (nanoid e) = 10 \<and> set (nanoid e) \<subseteq> set ALPHABET \<and> length ALPHABET = 33
   \<and> distinct ALPHABET
   \<and> ALPHABET = filter (\<lambda>c. c \<notin> set ''IO'') (''123456789'' @ ''ABCDEFGHIJKLMNOPQRSTUVWXYZ'')"
proof -
  have len: "length ALPHABET = 33"
    by (simp add: ALPHABET_def)
  have "set (nanoid e) \<subseteq> set ALPHABET"
    unfolding nanoid_def customAlphabet_def
    by (auto simp: len simp del: upt_Suc)
  moreover have "length (nanoid e) = 10"
    by (simp add: nanoid_def customAlphabet_def)
  moreover have "distinct ALPHABET"
    by (simp add: ALPHABET_def)
  moreover have "ALPHABET = filter (\<lambda>c. c \<notin> set ''IO'') (''123456789'' @ ''ABCDEFGHIJKLMNOPQRSTUVWXYZ'')"
    by (simp add: ALPHABET_def)
  ultimately show ?thesis
    using len by simp
qed

section \<open>Fees returned by registration\<close>

lemma FEES_keys: "(c, rs) \<in> set FEES \<Longrightarrow> map_of FEES c = Some rs \<and> c \<noteq> []"
  by (auto simp add: FEES_def)

lemma FEES_regions:
  "(c, rs) \<in> set FEES \<Longrightarrow> (rg, f) \<in> set rs \<Longrightarrow> map_of rs rg = Some f \<and> rg \<noteq> []"
  by (auto simp add: FEES_def)

lemma FEES_lookup_own:
  assumes "(c, rs) \<in> set FEES" and "(rg, f) \<in> set rs"
  shows "FEES_lookup e c rg = Some (JFee f)"
  using FEES_keys [OF assms(1)] FEES_regions [OF assms]
  by (simp add: FEES_lookup_def FEES_category_def)

text \<open>
  C2. For every pair of a category and a region that the fee table holds, a registration
  with all required fields non-empty answers with the currency and the amount stored for
  the pair; for Academia and ASIA these are USD and 150.
\<close>

theorem register_returns_fee:
  assumes "(c, rs) \<in> set FEES" and "(rg, (cur, amt)) \<in> set rs"
    and "b ''category'' = Some c" and "b ''region'' = Some rg"
    and "truthy_str (b ''name'')" and "truthy_str (b ''email'')" and "truthy_str (b ''mobile'')"
  shows "fst (register e b file rows) =
           Inr (Registered (nanoid e) (Some cur) (Some amt)
                  (case file of None \<Rightarrow> None | Some f \<Rightarrow> Some (''/uploads/'' @ filename f)))
         \<and> (c = ''Academia'' \<and> rg = ''ASIA'' \<longrightarrow> cur = ''USD'' \<and> amt = 150)"
proof -
  have keys: "c \<noteq> []" "rg \<noteq> []"
    using FEES_keys [OF assms(1)] FEES_regions [OF assms(1,2)] by simp_all
  have look: "FEES_lookup e c rg = Some (JFee (cur, amt))"
    by (rule FEES_lookup_own [OF assms(1,2)])
  have "fst (register e b file rows) =
          Inr (Registered (nanoid e) (Some cur) (Some amt)
                 (case file of None \<Rightarrow> None | Some f \<Rightarrow> Some (''/uploads/'' @ filename f)))"
    using assms(3-7) keys look by (simp add: register_def truthy_str_def)
  moreover have "c = ''Academia'' \<and> rg = ''ASIA'' \<longrightarrow> cur = ''USD'' \<and> amt = 150"
    using assms(1,2) by (auto simp add: FEES_def)
  ultimately show ?thesis by simp
qed

theorem register_returns_fee_witness:
  "fst (register ex_env ex_body None []) =
     Inr (Registered (nanoid ex_env) (Some ''USD'') (Some 150) None)"
  using register_returns_fee [of "''Academia''"
      "[(''INDIA'', (''INR'', 2000)), (''ASIA'', (''USD'', 150)), (''OTHER'', (''USD'', 175))]"
      "''ASIA''" "''USD''" 150 ex_body ex_env None "[]"]
  by (simp add: FEES_def ex_body_def truthy_str_def)

section \<open>Rejected registrations\<close>

lemma register_missing_field:
  assumes "k \<in> {''category'', ''region'', ''name'', ''email'', ''mobile''}" and "\<not> truthy_str (b k)"
  shows "register e b up rows = (Inl MissingField, rows)"
  using assms by (auto simp: register_def)

lemma register_unknown_pair:
  assumes "truthy_str (b ''name'')" and "truthy_str (b ''email'')" and "truthy_str (b ''mobile'')"
    and "b ''category'' = Some c" and "c \<noteq> []" and "b ''region'' = Some rg" and "rg \<noteq> []"
    and "(map_of FEES c = None \<and> c \<notin> set Object_prototype_keys)
         \<or> (\<exists>rs. map_of FEES c = Some rs \<and> map_of rs rg = None \<and> rg \<notin> set Object_prototype_keys)"
  shows "register e b up rows = (Inl InvalidSelection, rows)"
  using assms
  by (auto simp: register_def truthy_str_def FEES_lookup_def FEES_category_def inherited_def)

text \<open>
  C3. A registration whose pair of category and region is absent from the fee table is to
  be answered with a client error and must leave the collection unchanged. The guard
  \<open>!FEES[category]?.[region]\<close> reads properties of object literals, and such a read
  also finds the members every object inherits. For the category Academia and the region
  \<open>constructor\<close>, which the table does not hold, the read yields the inherited
  constructor function: the guard passes, and a record without currency and amount is
  appended. (A missing required field, and a category or region that is neither in the
  table nor the name of an inherited member, are rejected without any write, as the two
  lemmas above show.)
\<close>

theorem register_accepts_inherited_member:
  "map_of FEES ''Academia'' =
      Some [(''INDIA'', (''INR'', 2000)), (''ASIA'', (''USD'', 150)), (''OTHER'', (''USD'', 175))]
   \<and> register ex_env (ex_body(''region'' \<mapsto> ''constructor'')) None [] =
      (Inr (Registered (nanoid ex_env) None None None),
       [ex_record\<lparr> id' := nanoid ex_env, region := ''constructor'', currency := None, amount := None \<rparr>])"
  by (simp add: register_def FEES_lookup_def FEES_category_def FEES_def inherited_def
      Object_prototype_keys_def ex_body_def ex_env_def ex_record_def truthy_str_def or_null_def)

text \<open>The same run, read off its two components: no client error, one record stored.\<close>

theorem register_accepts_inherited_member_witness:
  "fst (register ex_env (ex_body(''region'' \<mapsto> ''constructor'')) None []) \<noteq> Inl InvalidSelection
   \<and> length (snd (register ex_env (ex_body(''region'' \<mapsto> ''constructor'')) None [])) = 1"
  using register_accepts_inherited_member by simp

section \<open>Email check of the payment confirmation\<close>

text \<open>
  C10. In the proof-file variant, a stored record whose email is null or the empty string
  is confirmed whatever payer email is supplied (also none at all): the comparison is
  skipped, the record is marked paid, and the answer is never the email mismatch.
\<close>

theorem confirmPayment_without_stored_email:
  assumes "find (by_id i) rows = Some r" and "email r = None \<or> email r = Some []"
  shows "confirmPayment e i b (Some f) rows =
           (Inr (Confirmed i),
            update_first (by_id i)
              (\<lambda>r. r\<lparr> paid := JNum 1, paid_at := Some (now e),
                       transaction_id := b ''transactionId'', payment_method := b ''method'',
                       payer_email := b ''email'',
                       payment_proof_filename := Some (filename f),
                       payment_proof_original := Some (originalname f) \<rparr>) rows)
         \<and> fst (confirmPayment e i b file rows) \<noteq> Inl EmailMismatch
         \<and> (\<exists>r'. find (by_id i) (snd (confirmPayment e i b (Some f) rows)) = Some r'
                 \<and> paid r' = JNum 1 \<and> payer_email r' = b ''email'')"
proof -
  have blank: "\<not> truthy_str (email r)"
    using assms(2) by (auto simp: truthy_str_def)
  let ?g = "\<lambda>r. r\<lparr> paid := JNum 1, paid_at := Some (now e),
                       transaction_id := b ''transactionId'', payment_method := b ''method'',
                       payer_email := b ''email'',
                       payment_proof_filename := Some (filename f),
                       payment_proof_original := Some (originalname f) \<rparr>"
  have ok: "confirmPayment e i b (Some f) rows = (Inr (Confirmed i), update_first (by_id i) ?g rows)"
    using assms(1) blank by (simp add: confirmPayment_def)
  have "by_id i r"
    using assms(1) by (auto simp: find_Some_iff)
  then have "by_id i (?g r)"
    by (simp add: by_id_def)
  then have "find (by_id i) (update_first (by_id i) ?g rows) = Some (?g r)"
    using assms(1) by (rule find_update_first [rotated])
  then have re: "\<exists>r'. find (by_id i) (snd (confirmPayment e i b (Some f) rows)) = Some r'
                 \<and> paid r' = JNum 1 \<and> payer_email r' = b ''email''"
    using ok by simp
  have "fst (confirmPayment e i b file rows) \<noteq> Inl EmailMismatch"
    using assms(1) blank by (simp add: confirmPayment_def split: option.splits)
  then show ?thesis
    using ok re by simp
qed

text \<open>A record stored with a null email is confirmed for a foreign payer email.\<close>

theorem confirmPayment_without_stored_email_witness:
  "confirmPayment ex_env ''R1'' [''email'' \<mapsto> ''intruder@example.org''] (Some ex_proof)
      [ex_record\<lparr> email := None \<rparr>] =
     (Inr (Confirmed ''R1''),
      [ex_record\<lparr> email := None, paid := JNum 1, paid_at := Some 1000,
                   payer_email := Some ''intruder@example.org'',
                   payment_proof_filename := Some ''P1.png'',
                   payment_proof_original := Some ''receipt.png'' \<rparr>])"
  using confirmPayment_without_stored_email [of "''R1''" "[ex_record\<lparr> email := None \<rparr>]"
      "ex_record\<lparr> email := None \<rparr>" ex_env "[''email'' \<mapsto> ''intruder@example.org'']" ex_proof None]
  by (simp add: by_id_def ex_record_def ex_env_def ex_proof_def)




section \<open>The paid flag and its time stamp\<close>

text \<open>
  C6, as stated, fails. The flag \<open>paid\<close> is stored as the number 0 or 1, never as a
  boolean: a fresh record holds 0 and a confirmed one holds 1. And \<open>paid_at\<close> is the
  clock reading at confirmation, which lies before \<open>created_at\<close> when the clock was set
  back in between (here: created at 1000, confirmed at 5).
\<close>

theorem paid_flag_counterexample:
  "paid (last (snd (register ex_env ex_body None []))) = JNum 0
   \<and> paid (last (snd (register ex_env ex_body None []))) \<noteq> JBool False
   \<and> fst (confirmPayment (ex_env\<lparr> now := 5 \<rparr>) ''R1'' ex_payment (Some ex_proof) [ex_record])
       = Inr (Confirmed ''R1'')
   \<and> map paid (snd (confirmPayment (ex_env\<lparr> now := 5 \<rparr>) ''R1'' ex_payment (Some ex_proof) [ex_record]))
       = [JNum 1]
   \<and> JNum 1 \<noteq> JBool True
   \<and> map paid_at (snd (confirmPayment (ex_env\<lparr> now := 5 \<rparr>) ''R1'' ex_payment (Some ex_proof) [ex_record]))
       = [Some 5]
   \<and> map created_at (snd (confirmPayment (ex_env\<lparr> now := 5 \<rparr>) ''R1'' ex_payment (Some ex_proof) [ex_record]))
       = [1000]"
  by (simp add: register_def FEES_lookup_def FEES_category_def FEES_def ex_body_def ex_env_def
      ex_record_def truthy_str_def or_null_def confirmPayment_def by_id_def ex_payment_def
      ex_proof_def toLowerCase_def toLowerCase_char_def upper_letters_def lower_letters_def)

text \<open>
  C6, amended. A record freshly created by register has \<open>paid\<close> equal to the number 0
  and \<open>paid_at\<close> null. After a successful payment confirmation (either variant),
  re-reading the record shows \<open>paid\<close> equal to the number 1 and \<open>paid_at\<close> equal to the
  clock reading of the confirmation; that reading is at or after \<open>created_at\<close> whenever
  the clock has not gone back since the record was created.
\<close>

theorem fresh_unpaid_confirmed_paid:
  "(fst (register e b up rows) = Inr resp \<longrightarrow>
      (\<exists>rec. snd (register e b up rows) = rows @ [rec]
          \<and> paid rec = JNum 0 \<and> paid_at rec = None \<and> created_at rec = now e))
   \<and> (find (by_id i) rows = Some r \<and> fst (confirmPayment e i b' up rows) = Inr resp' \<longrightarrow>
        (\<exists>r'. find (by_id i) (snd (confirmPayment e i b' up rows)) = Some r'
            \<and> paid r' = JNum 1 \<and> paid_at r' = Some (now e) \<and> created_at r' = created_at r
            \<and> (created_at r \<le> now e \<longrightarrow> (\<exists>t. paid_at r' = Some t \<and> created_at r' \<le> t))))
   \<and> (find (by_id i) rows = Some r \<and> fst (confirmPayment_json e i b' rows) = Inr resp'' \<longrightarrow>
        (\<exists>r'. find (by_id i) (snd (confirmPayment_json e i b' rows)) = Some r'
            \<and> paid r' = JNum 1 \<and> paid_at r' = Some (now e) \<and> created_at r' = created_at r
            \<and> (created_at r \<le> now e \<longrightarrow> (\<exists>t. paid_at r' = Some t \<and> created_at r' \<le> t))))"
proof (intro conjI impI)
  assume "fst (register e b up rows) = Inr resp"
  from register_appends [OF this]
  show "\<exists>rec. snd (register e b up rows) = rows @ [rec]
          \<and> paid rec = JNum 0 \<and> paid_at rec = None \<and> created_at rec = now e"
    by blast
next
  assume "find (by_id i) rows = Some r \<and> fst (confirmPayment e i b' up rows) = Inr resp'"
  then obtain f :: upload where
    "find (by_id i) (snd (confirmPayment e i b' up rows)) =
       Some (r\<lparr> paid := JNum 1, paid_at := Some (now e),
                transaction_id := b' ''transactionId'', payment_method := b' ''method'',
                payer_email := b' ''email'',
                payment_proof_filename := Some (filename f),
                payment_proof_original := Some (originalname f) \<rparr>)"
    using confirmPayment_reread by blast
  then show "\<exists>r'. find (by_id i) (snd (confirmPayment e i b' up rows)) = Some r'
            \<and> paid r' = JNum 1 \<and> paid_at r' = Some (now e) \<and> created_at r' = created_at r
            \<and> (created_at r \<le> now e \<longrightarrow> (\<exists>t. paid_at r' = Some t \<and> created_at r' \<le> t))"
    by simp
next
  assume "find (by_id i) rows = Some r \<and> fst (confirmPayment_json e i b' rows) = Inr resp''"
  then have
    "find (by_id i) (snd (confirmPayment_json e i b' rows)) =
       Some (r\<lparr> paid := JNum 1, paid_at := Some (now e),
                transaction_id := b' ''transactionId'', payment_method := b' ''method'',
                payer_email := b' ''email'' \<rparr>)"
    using confirmPayment_json_reread by blast
  then show "\<exists>r'. find (by_id i) (snd (confirmPayment_json e i b' rows)) = Some r'
            \<and> paid r' = JNum 1 \<and> paid_at r' = Some (now e) \<and> created_at r' = created_at r
            \<and> (created_at r \<le> now e \<longrightarrow> (\<exists>t. paid_at r' = Some t \<and> created_at r' \<le> t))"
    by simp
qed

text \<open>The record created at 1000, a second registration and the confirmations at 2000.\<close>

theorem fresh_unpaid_confirmed_paid_witness:
  "(\<exists>rec. snd (register (ex_env\<lparr> now := 2000 \<rparr>) ex_body (Some ex_proof) [ex_record]) = [ex_record] @ [rec]
       \<and> paid rec = JNum 0 \<and> paid_at rec = None \<and> created_at rec = 2000)
   \<and> (\<exists>r'. find (by_id ''R1'')
               (snd (confirmPayment (ex_env\<lparr> now := 2000 \<rparr>) ''R1'' ex_payment (Some ex_proof) [ex_record]))
             = Some r'
         \<and> paid r' = JNum 1 \<and> paid_at r' = Some 2000 \<and> created_at r' = 1000)
   \<and> (\<exists>r'. find (by_id ''R1'')
               (snd (confirmPayment_json (ex_env\<lparr> now := 2000 \<rparr>) ''R1'' ex_payment [ex_record]))
             = Some r'
         \<and> paid r' = JNum 1 \<and> paid_at r' = Some 2000 \<and> created_at r' = 1000)"
proof -
  have r: "find (by_id ''R1'') [ex_record] = Some ex_record"
    by (simp add: by_id_def ex_record_def)
  have t: "created_at ex_record = 1000"
    by (simp add: ex_record_def)
  have a: "fst (register (ex_env\<lparr> now := 2000 \<rparr>) ex_body (Some ex_proof) [ex_record]) =
      Inr (Registered (nanoid (ex_env\<lparr> now := 2000 \<rparr>)) (Some ''USD'') (Some 150) (Some ''/uploads/P1.png''))"
    by (simp add: register_def FEES_lookup_def FEES_category_def FEES_def ex_body_def
        truthy_str_def ex_proof_def)
  have b: "fst (confirmPayment (ex_env\<lparr> now := 2000 \<rparr>) ''R1'' ex_payment (Some ex_proof) [ex_record])
      = Inr (Confirmed ''R1'')"
    by (simp add: confirmPayment_def by_id_def ex_record_def ex_payment_def truthy_str_def
        toLowerCase_def toLowerCase_char_def upper_letters_def lower_letters_def)
  have c: "fst (confirmPayment_json (ex_env\<lparr> now := 2000 \<rparr>) ''R1'' ex_payment [ex_record])
      = Inr (Confirmed_json 2000 ''TX1'' ''UPI'' ''ada@example.org'')"
    by (simp add: confirmPayment_json_def by_id_def ex_record_def ex_payment_def truthy_str_def
        toLowerCase_def toLowerCase_char_def upper_letters_def lower_letters_def)
  show ?thesis
    using fresh_unpaid_confirmed_paid [where e = "ex_env\<lparr> now := 2000 \<rparr>" and b = ex_body
        and up = "Some ex_proof" and rows = "[ex_record]" and i = "''R1''" and r = ex_record
        and resp = "Registered (nanoid (ex_env\<lparr> now := 2000 \<rparr>)) (Some ''USD'') (Some 150) (Some ''/uploads/P1.png'')"
        and b' = ex_payment and resp' = "Confirmed ''R1''"
        and resp'' = "Confirmed_json 2000 ''TX1'' ''UPI'' ''ada@example.org''"] r t a b c
    by auto
qed

section \<open>Admin override of the paid flag\<close>

text \<open>
  C4, as stated, fails: the flag is never set to false or true. Marking the registered and
  confirmed record unpaid stores the number 0, marking the registered record paid stores
  the number 1.
\<close>

theorem markPaid_stores_number_counterexample:
  "reachable ex_registered
   \<and> map paid (snd (markPaid ex_env ex_admin ''123456789A'' (JBool False)
         (snd (confirmPayment ex_env ''123456789A'' ex_payment (Some ex_proof) ex_registered))))
       = [JNum 0]
   \<and> JNum 0 \<noteq> JBool False
   \<and> map paid (snd (markPaid ex_env ex_admin ''123456789A'' (JBool True) ex_registered)) = [JNum 1]
   \<and> JNum 1 \<noteq> JBool True"
  using reachable_ex_registered
  by (simp add: ex_registered_value confirmPayment_def markPaid_def by_id_def
      checkAdminPassword_def supplied_password_def ADMIN_PASSWORD_def ex_admin_def ex_env_def
      ex_payment_def truthy_str_def lower_ada ex_record_def)

text \<open>
  C4, amended. With the admin password given: marking an absent id fails with not-found and
  leaves the collection as it was; marking a present record unpaid sets \<open>paid\<close> to the
  number 0 and \<open>paid_at\<close> to null, marking it paid sets \<open>paid\<close> to the number 1 and
  \<open>paid_at\<close> to the current time, every other field and every other record staying as
  it was. In particular, after a successful payment confirmation, marking the record
  unpaid leaves \<open>transaction_id\<close>, \<open>payment_method\<close>, \<open>payer_email\<close>,
  \<open>payment_proof_filename\<close> and \<open>payment_proof_original\<close> as the confirmation wrote
  them.
\<close>

theorem markPaid_sets_flag_only:
  assumes "checkAdminPassword e req"
  shows "(find (by_id i) rows = None \<longrightarrow> markPaid e req i p rows = (Inl NotFound, rows))
       \<and> (find (by_id i) rows = Some r \<longrightarrow>
            markPaid e req i (JBool False) rows =
              (Inr (Marked (r\<lparr> paid := JNum 0, paid_at := None \<rparr>)),
               update_first (by_id i) (\<lambda>r. r\<lparr> paid := JNum 0, paid_at := None \<rparr>) rows)
          \<and> find (by_id i) (snd (markPaid e req i (JBool False) rows))
              = Some (r\<lparr> paid := JNum 0, paid_at := None \<rparr>)
          \<and> markPaid e req i (JBool True) rows =
              (Inr (Marked (r\<lparr> paid := JNum 1, paid_at := Some (now e) \<rparr>)),
               update_first (by_id i) (\<lambda>r. r\<lparr> paid := JNum 1, paid_at := Some (now e) \<rparr>) rows)
          \<and> find (by_id i) (snd (markPaid e req i (JBool True) rows))
              = Some (r\<lparr> paid := JNum 1, paid_at := Some (now e) \<rparr>))
       \<and> (fst (confirmPayment e0 i b (Some f) rows0) = Inr resp \<longrightarrow>
            (\<exists>r'. find (by_id i)
                    (snd (markPaid e req i (JBool False) (snd (confirmPayment e0 i b (Some f) rows0))))
                   = Some r'
                \<and> paid r' = JNum 0 \<and> paid_at r' = None
                \<and> transaction_id r' = b ''transactionId'' \<and> payment_method r' = b ''method''
                \<and> payer_email r' = b ''email''
                \<and> payment_proof_filename r' = Some (filename f)
                \<and> payment_proof_original r' = Some (originalname f)))"
proof (intro conjI impI)
  assume "find (by_id i) rows = None"
  then show "markPaid e req i p rows = (Inl NotFound, rows)"
    using assms by (simp add: markPaid_def)
next
  assume r: "find (by_id i) rows = Some r"
  show "markPaid e req i (JBool False) rows =
              (Inr (Marked (r\<lparr> paid := JNum 0, paid_at := None \<rparr>)),
               update_first (by_id i) (\<lambda>r. r\<lparr> paid := JNum 0, paid_at := None \<rparr>) rows)"
    and "find (by_id i) (snd (markPaid e req i (JBool False) rows))
              = Some (r\<lparr> paid := JNum 0, paid_at := None \<rparr>)"
    using markPaid_present [OF assms r, of "JBool False"] by auto
  show "markPaid e req i (JBool True) rows =
              (Inr (Marked (r\<lparr> paid := JNum 1, paid_at := Some (now e) \<rparr>)),
               update_first (by_id i) (\<lambda>r. r\<lparr> paid := JNum 1, paid_at := Some (now e) \<rparr>) rows)"
    and "find (by_id i) (snd (markPaid e req i (JBool True) rows))
              = Some (r\<lparr> paid := JNum 1, paid_at := Some (now e) \<rparr>)"
    using markPaid_present [OF assms r, of "JBool True"] by auto
next
  assume ok: "fst (confirmPayment e0 i b (Some f) rows0) = Inr resp"
  then obtain r0 where r0: "find (by_id i) rows0 = Some r0"
    using confirmPayment_finds by blast
  from confirmPayment_reread [OF r0 ok]
  have "find (by_id i) (snd (confirmPayment e0 i b (Some f) rows0)) =
          Some (r0\<lparr> paid := JNum 1, paid_at := Some (now e0),
                    transaction_id := b ''transactionId'', payment_method := b ''method'',
                    payer_email := b ''email'',
                    payment_proof_filename := Some (filename f),
                    payment_proof_original := Some (originalname f) \<rparr>)"
    by simp
  from markPaid_present [OF assms this, of "JBool False", THEN conjunct2]
  show "\<exists>r'. find (by_id i)
                    (snd (markPaid e req i (JBool False) (snd (confirmPayment e0 i b (Some f) rows0))))
                   = Some r'
                \<and> paid r' = JNum 0 \<and> paid_at r' = None
                \<and> transaction_id r' = b ''transactionId'' \<and> payment_method r' = b ''method''
                \<and> payer_email r' = b ''email''
                \<and> payment_proof_filename r' = Some (filename f)
                \<and> payment_proof_original r' = Some (originalname f)"
    by simp
qed

text \<open>An absent id, and the stored record marked paid and, after its confirmation, unpaid.\<close>

theorem markPaid_sets_flag_only_witness:
  "markPaid ex_env ex_admin ''R9'' (JBool False) [ex_record] = (Inl NotFound, [ex_record])
   \<and> find (by_id ''R1'') (snd (markPaid ex_env ex_admin ''R1'' (JBool True) [ex_record]))
       = Some (ex_record\<lparr> paid := JNum 1, paid_at := Some (now ex_env) \<rparr>)
   \<and> (\<exists>r'. find (by_id ''R1'')
               (snd (markPaid ex_env ex_admin ''R1'' (JBool False)
                  (snd (confirmPayment ex_env ''R1'' ex_payment (Some ex_proof) [ex_record]))))
             = Some r'
          \<and> paid r' = JNum 0 \<and> paid_at r' = None
          \<and> transaction_id r' = ex_payment ''transactionId''
          \<and> payment_method r' = ex_payment ''method''
          \<and> payer_email r' = ex_payment ''email''
          \<and> payment_proof_filename r' = Some (filename ex_proof)
          \<and> payment_proof_original r' = Some (originalname ex_proof))"
proof -
  have pw: "checkAdminPassword ex_env ex_admin"
    by (simp add: checkAdminPassword_def supplied_password_def ADMIN_PASSWORD_def ex_admin_def
        ex_env_def truthy_str_def)
  have absent: "find (by_id ''R9'') [ex_record] = None"
    by (simp add: by_id_def ex_record_def)
  have present: "find (by_id ''R1'') [ex_record] = Some ex_record"
    by (simp add: by_id_def ex_record_def)
  have ok: "fst (confirmPayment ex_env ''R1'' ex_payment (Some ex_proof) [ex_record])
      = Inr (Confirmed ''R1'')"
    by (simp add: confirmPayment_def by_id_def ex_record_def ex_payment_def truthy_str_def
        toLowerCase_def toLowerCase_char_def upper_letters_def lower_letters_def)
  show ?thesis
    using markPaid_sets_flag_only [OF pw, where i = "''R9''" and rows = "[ex_record]"
        and p = "JBool False" and r = ex_record and ?e0.0 = ex_env and b = ex_payment
        and f = ex_proof and ?rows0.0 = "[ex_record]" and resp = "Confirmed ''R1''"]
      markPaid_sets_flag_only [OF pw, where i = "''R1''" and rows = "[ex_record]"
        and p = "JBool False" and r = ex_record and ?e0.0 = ex_env and b = ex_payment
        and f = ex_proof and ?rows0.0 = "[ex_record]" and resp = "Confirmed ''R1''"]
      absent present ok
    by blast
qed

section \<open>Admin authentication\<close>

text \<open>
  C7. The secret of a request is the query parameter \<open>password\<close> when it is non-empty,
  else the header \<open>x-admin-password\<close> when it is non-empty, else the empty string. For
  every request whose secret is not equal to the configured password, the list, the export
  and mark-paid answer Unauthorized, return no record data and leave the collection as it
  was. The configured password is never empty, so the empty secret is always refused.
\<close>

theorem admin_rejects_other_secrets:
  assumes "supplied_password req \<noteq> ADMIN_PASSWORD e"
  shows "admin_registrations e req rows = (Inl Unauthorized, rows)
       \<and> admin_export e req rows = (Inl Unauthorized, rows)
       \<and> markPaid e req i p rows = (Inl Unauthorized, rows)
       \<and> ADMIN_PASSWORD e \<noteq> []"
  using assms
  by (simp add: admin_registrations_def admin_export_def markPaid_def checkAdminPassword_def
      ADMIN_PASSWORD_def truthy_str_def split: option.splits)

text \<open>No secret at all, and the default password in lower case.\<close>

theorem admin_rejects_other_secrets_witness:
  "admin_registrations ex_env \<lparr> query = Map.empty, headers = Map.empty \<rparr> [ex_record]
      = (Inl Unauthorized, [ex_record])
   \<and> admin_export ex_env \<lparr> query = Map.empty, headers = Map.empty \<rparr> [ex_record]
      = (Inl Unauthorized, [ex_record])
   \<and> markPaid ex_env \<lparr> query = Map.empty, headers = Map.empty \<rparr> ''R1'' (JBool True) [ex_record]
      = (Inl Unauthorized, [ex_record])
   \<and> admin_registrations ex_env
        \<lparr> query = Map.empty, headers = [''x-admin-password'' \<mapsto> ''vishalrajput2003''] \<rparr> [ex_record]
      = (Inl Unauthorized, [ex_record])
   \<and> admin_export ex_env
        \<lparr> query = Map.empty, headers = [''x-admin-password'' \<mapsto> ''vishalrajput2003''] \<rparr> [ex_record]
      = (Inl Unauthorized, [ex_record])
   \<and> markPaid ex_env
        \<lparr> query = Map.empty, headers = [''x-admin-password'' \<mapsto> ''vishalrajput2003''] \<rparr>
        ''R1'' (JBool True) [ex_record]
      = (Inl Unauthorized, [ex_record])"
proof -
  have none: "supplied_password \<lparr> query = Map.empty, headers = Map.empty \<rparr> \<noteq> ADMIN_PASSWORD ex_env"
    by (simp add: supplied_password_def ADMIN_PASSWORD_def ex_env_def truthy_str_def)
  have lower: "supplied_password
        \<lparr> query = Map.empty, headers = [''x-admin-password'' \<mapsto> ''vishalrajput2003''] \<rparr>
      \<noteq> ADMIN_PASSWORD ex_env"
    by (simp add: supplied_password_def ADMIN_PASSWORD_def ex_env_def truthy_str_def)
  show ?thesis
    using admin_rejects_other_secrets [OF none, of "[ex_record]" "''R1''" "JBool True"]
      admin_rejects_other_secrets [OF lower, of "[ex_record]" "''R1''" "JBool True"]
    by simp
qed

section \<open>Admin list\<close>

text \<open>
  What the list handler computes with the admin password given: the stored records in
  reverse insertion order, filtered, when the query is non-empty, by the occurrence of the
  query up to letter case in the text the code builds (\<open>search_text\<close>), each record
  extended by the two URLs, which are null when the filename is absent.
\<close>

lemma admin_registrations_filter:
  assumes "checkAdminPassword e req"
  shows "\<exists>out. admin_registrations e req rows = (Inr (Listing out), rows)
           \<and> map registration.truncate out =
               (if truthy_str (query req ''q'')
                then filter (\<lambda>r. contains_ci (search_text r) (the (query req ''q''))) (rev rows)
                else rev rows)
           \<and> (\<forall>l \<in> set out.
                 (paper_filename l = None \<longrightarrow> paper_url l = None)
               \<and> (\<forall>f. paper_filename l = Some f \<and> f \<noteq> [] \<longrightarrow> paper_url l = Some (''/uploads/'' @ f))
               \<and> (payment_proof_filename l = None \<longrightarrow> payment_proof_url l = None)
               \<and> (\<forall>f. payment_proof_filename l = Some f \<and> f \<noteq> [] \<longrightarrow>
                     payment_proof_url l = Some (''/uploads/'' @ f)))"
proof -
  let ?sel = "if truthy_str (query req ''q'')
                then filter (\<lambda>r. contains_ci (search_text r) (the (query req ''q''))) (rev rows)
                else rev rows"
  have q: "truthy_str (query req ''q'') \<Longrightarrow> or_empty (query req ''q'') = the (query req ''q'')"
    by (auto simp: truthy_str_def or_empty_def split: option.splits)
  have run: "admin_registrations e req rows = (Inr (Listing (map withUrls ?sel)), rows)"
    using assms q by (simp add: admin_registrations_def Let_def query_truthy contains_ci_includes)
  have trunc: "map registration.truncate (map withUrls ?sel) = ?sel"
    by (simp add: truncate_withUrls comp_def)
  have urls: "\<forall>l \<in> set (map withUrls ?sel).
                 (paper_filename l = None \<longrightarrow> paper_url l = None)
               \<and> (\<forall>f. paper_filename l = Some f \<and> f \<noteq> [] \<longrightarrow> paper_url l = Some (''/uploads/'' @ f))
               \<and> (payment_proof_filename l = None \<longrightarrow> payment_proof_url l = None)
               \<and> (\<forall>f. payment_proof_filename l = Some f \<and> f \<noteq> [] \<longrightarrow>
                     payment_proof_url l = Some (''/uploads/'' @ f))"
    by (auto simp: urls_withUrls truthy_str_def)
  show ?thesis
    using run trunc urls by blast
qed

text \<open>
  C8. With a query the list is to hold exactly the records whose concatenation of id, name
  and paper id contains the query up to letter case. The code builds that text with the
  operator \<open>+\<close>, which writes a null \<open>paper_id\<close> as the four letters \<open>null\<close>. For
  the record that a registration without paper id stores, id and name give
  \<open>123456789AAda\<close> and there is no paper id: the concatenation does not contain the
  query \<open>null\<close>, and yet the record is listed.
\<close>

theorem admin_registrations_lists_absent_paper_id:
  "reachable ex_registered
   \<and> map id_name_paper_id ex_registered = [''123456789AAda'']
   \<and> \<not> contains_ci ''123456789AAda'' ''null''
   \<and> admin_registrations ex_env (ex_admin\<lparr> query := (query ex_admin)(''q'' \<mapsto> ''null'') \<rparr>)
        ex_registered
      = (Inr (Listing (map withUrls ex_registered)), ex_registered)"
proof -
  have a: "map id_name_paper_id ex_registered = [''123456789AAda'']"
    by (simp add: ex_registered_value id_name_paper_id_def ex_record_def)
  have b: "\<not> contains_ci ''123456789AAda'' ''null''"
    by (simp add: contains_ci_includes lower_null)
       (simp add: toLowerCase_def toLowerCase_char_def upper_letters_def lower_letters_def)
  have pw: "checkAdminPassword ex_env (ex_admin\<lparr> query := (query ex_admin)(''q'' \<mapsto> ''null'') \<rparr>)"
    by (simp add: checkAdminPassword_def supplied_password_def ADMIN_PASSWORD_def ex_admin_def
        ex_env_def truthy_str_def)
  have st: "toLowerCase (search_text (ex_record\<lparr> id' := ''123456789A'' \<rparr>)) = ''123456789aadanull''"
    by (simp add: search_text_def ex_record_def toLowerCase_def toLowerCase_char_def
        upper_letters_def lower_letters_def)
  have c: "admin_registrations ex_env (ex_admin\<lparr> query := (query ex_admin)(''q'' \<mapsto> ''null'') \<rparr>)
        ex_registered
      = (Inr (Listing (map withUrls ex_registered)), ex_registered)"
    using pw by (simp add: admin_registrations_def ex_registered_value or_empty_def lower_null st)
  show ?thesis
    using reachable_ex_registered a b c by simp
qed

text \<open>The answer of that request, written out.\<close>

theorem admin_registrations_lists_absent_paper_id_witness:
  "fst (admin_registrations ex_env (ex_admin\<lparr> query := (query ex_admin)(''q'' \<mapsto> ''null'') \<rparr>)
        ex_registered)
     = Inr (Listing [withUrls (ex_record\<lparr> id' := ''123456789A'' \<rparr>)])"
  using admin_registrations_lists_absent_paper_id by (simp add: ex_registered_value)

section \<open>The invariant of unpaid records\<close>

text \<open>
  C1, as stated, fails: registering, confirming the payment and then marking the record
  unpaid yields a reachable collection whose record is unpaid and still carries its
  transaction id, payment method and payer email.
\<close>

theorem unpaid_record_keeps_payment_fields_counterexample:
  "reachable ex_history
   \<and> map paid ex_history = [JNum 0]
   \<and> map transaction_id ex_history = [Some ''TX1'']
   \<and> map payment_method ex_history = [Some ''UPI'']
   \<and> map payer_email ex_history = [Some ''ada@example.org'']
   \<and> \<not> list_all payment_fields_null ex_history"
  using reachable_ex_history
  by (simp add: ex_history_value payment_fields_null_def) (simp add: ex_record_def)

text \<open>
  C1, amended. Every record of a collection reachable by register, the payment
  confirmation and mark-paid satisfies: an unpaid record has a null \<open>paid_at\<close>. The
  full invariant (an unpaid record has null \<open>paid_at\<close>, \<open>transaction_id\<close>,
  \<open>payment_method\<close> and \<open>payer_email\<close>) is preserved by register, by the payment
  confirmation and by marking a record paid. Marking a record unpaid sets \<open>paid\<close> to 0
  and \<open>paid_at\<close> to null and leaves \<open>transaction_id\<close>, \<open>payment_method\<close> and
  \<open>payer_email\<close> as they were.
\<close>

theorem operations_keep_unpaid_invariant:
  "(reachable rows \<longrightarrow> list_all paid_at_null rows)
   \<and> (list_all payment_fields_null rows \<longrightarrow>
        list_all payment_fields_null (snd (register e b up rows))
      \<and> list_all payment_fields_null (snd (confirmPayment e i b' up rows))
      \<and> list_all payment_fields_null (snd (confirmPayment_json e i b' rows))
      \<and> (truthy p \<longrightarrow> list_all payment_fields_null (snd (markPaid e req i p rows))))
   \<and> (checkAdminPassword e req \<and> find (by_id i) rows = Some r \<and> \<not> truthy p \<longrightarrow>
        snd (markPaid e req i p rows) =
          update_first (by_id i) (\<lambda>r. r\<lparr> paid := JNum 0, paid_at := None \<rparr>) rows
      \<and> find (by_id i) (snd (markPaid e req i p rows)) = Some (r\<lparr> paid := JNum 0, paid_at := None \<rparr>)
      \<and> transaction_id (r\<lparr> paid := JNum 0, paid_at := None \<rparr>) = transaction_id r
      \<and> payment_method (r\<lparr> paid := JNum 0, paid_at := None \<rparr>) = payment_method r
      \<and> payer_email (r\<lparr> paid := JNum 0, paid_at := None \<rparr>) = payer_email r)"
proof -
  have a: "reachable rows \<longrightarrow> list_all paid_at_null rows"
    using reachable_paid_at by blast
  have b: "list_all payment_fields_null rows \<longrightarrow>
        list_all payment_fields_null (snd (register e b up rows))"
    by (auto intro!: register_keeps simp: payment_fields_null_def)
  have c: "list_all payment_fields_null rows \<longrightarrow>
        list_all payment_fields_null (snd (confirmPayment e i b' up rows))"
    by (auto intro!: confirmPayment_keeps simp: payment_fields_null_def)
  have d: "list_all payment_fields_null rows \<longrightarrow>
        list_all payment_fields_null (snd (confirmPayment_json e i b' rows))"
    by (auto intro!: confirmPayment_json_keeps simp: payment_fields_null_def)
  have e: "list_all payment_fields_null rows \<longrightarrow> truthy p \<longrightarrow>
        list_all payment_fields_null (snd (markPaid e req i p rows))"
    by (auto intro!: markPaid_true_keeps)
  have f: "checkAdminPassword e req \<and> find (by_id i) rows = Some r \<and> \<not> truthy p \<longrightarrow>
        snd (markPaid e req i p rows) =
          update_first (by_id i) (\<lambda>r. r\<lparr> paid := JNum 0, paid_at := None \<rparr>) rows
      \<and> find (by_id i) (snd (markPaid e req i p rows)) = Some (r\<lparr> paid := JNum 0, paid_at := None \<rparr>)"
    using markPaid_present [of e req i rows r p] by auto
  have g: "transaction_id (r\<lparr> paid := JNum 0, paid_at := None \<rparr>) = transaction_id r
      \<and> payment_method (r\<lparr> paid := JNum 0, paid_at := None \<rparr>) = payment_method r
      \<and> payer_email (r\<lparr> paid := JNum 0, paid_at := None \<rparr>) = payer_email r"
    by simp
  show ?thesis
    using a b c d e f g by blast
qed

text \<open>
  The reachable collection above, the operations on a collection of one unpaid record, and
  a paid record with a transaction id marked unpaid.
\<close>

theorem operations_keep_unpaid_invariant_witness:
  "list_all paid_at_null ex_history
   \<and> list_all payment_fields_null (snd (register ex_env ex_body None [ex_record]))
   \<and> list_all payment_fields_null (snd (confirmPayment ex_env ''R1'' ex_payment (Some ex_proof) [ex_record]))
   \<and> list_all payment_fields_null (snd (confirmPayment_json ex_env ''R1'' ex_payment [ex_record]))
   \<and> list_all payment_fields_null (snd (markPaid ex_env ex_admin ''R1'' (JBool True) [ex_record]))
   \<and> find (by_id ''R1'')
        (snd (markPaid ex_env ex_admin ''R1'' (JBool False)
           [ex_record\<lparr> paid := JNum 1, paid_at := Some 1000, transaction_id := Some ''TX1'' \<rparr>]))
       = Some (ex_record\<lparr> paid := JNum 0, paid_at := None, transaction_id := Some ''TX1'' \<rparr>)"
proof -
  have inv: "list_all payment_fields_null [ex_record]"
    by (simp add: payment_fields_null_def ex_record_def)
  have pw: "checkAdminPassword ex_env ex_admin"
    by (simp add: checkAdminPassword_def supplied_password_def ADMIN_PASSWORD_def ex_admin_def
        ex_env_def truthy_str_def)
  have r: "find (by_id ''R1'')
      [ex_record\<lparr> paid := JNum 1, paid_at := Some 1000, transaction_id := Some ''TX1'' \<rparr>]
      = Some (ex_record\<lparr> paid := JNum 1, paid_at := Some 1000, transaction_id := Some ''TX1'' \<rparr>)"
    by (simp add: by_id_def ex_record_def)
  have nt: "\<not> truthy (JBool False)"
    by simp
  have step: "find (by_id ''R1'')
        (snd (markPaid ex_env ex_admin ''R1'' (JBool False)
           [ex_record\<lparr> paid := JNum 1, paid_at := Some 1000, transaction_id := Some ''TX1'' \<rparr>]))
       = Some (ex_record\<lparr> paid := JNum 1, paid_at := Some 1000, transaction_id := Some ''TX1'' \<rparr>
                \<lparr> paid := JNum 0, paid_at := None \<rparr>)"
    using operations_keep_unpaid_invariant [where e = ex_env and req = ex_admin and i = "''R1''"
        and rows = "[ex_record\<lparr> paid := JNum 1, paid_at := Some 1000, transaction_id := Some ''TX1'' \<rparr>]"
        and r = "ex_record\<lparr> paid := JNum 1, paid_at := Some 1000, transaction_id := Some ''TX1'' \<rparr>"
        and p = "JBool False" and b = ex_body and up = None and b' = ex_payment] pw r nt
    by blast
  have last: "find (by_id ''R1'')
        (snd (markPaid ex_env ex_admin ''R1'' (JBool False)
           [ex_record\<lparr> paid := JNum 1, paid_at := Some 1000, transaction_id := Some ''TX1'' \<rparr>]))
       = Some (ex_record\<lparr> paid := JNum 0, paid_at := None, transaction_id := Some ''TX1'' \<rparr>)"
    unfolding step by (simp add: ex_record_def)
  have rest: "list_all paid_at_null ex_history
   \<and> list_all payment_fields_null (snd (register ex_env ex_body None [ex_record]))
   \<and> list_all payment_fields_null (snd (confirmPayment ex_env ''R1'' ex_payment (Some ex_proof) [ex_record]))
   \<and> list_all payment_fields_null (snd (confirmPayment_json ex_env ''R1'' ex_payment [ex_record]))
   \<and> list_all payment_fields_null (snd (markPaid ex_env ex_admin ''R1'' (JBool True) [ex_record]))"
    using operations_keep_unpaid_invariant [where rows = ex_history and e = ex_env and b = ex_body
        and up = None and i = "''R1''" and b' = ex_payment and req = ex_admin and p = "JBool True"]
      operations_keep_unpaid_invariant [where rows = "[ex_record]" and e = ex_env and b = ex_body
        and up = None and i = "''R1''" and b' = ex_payment and req = ex_admin and p = "JBool True"]
      operations_keep_unpaid_invariant [where rows = "[ex_record]" and e = ex_env and b = ex_body
        and up = "Some ex_proof" and i = "''R1''" and b' = ex_payment and req = ex_admin
        and p = "JBool True"]
      reachable_ex_history inv
    by simp
  show ?thesis
    using rest last by simp
qed

end
